theory Spec2Isabelle
  imports Main "HOL-Library.Word"
begin

section \<open>Credential and token core of spsyncpro-api\<close>

text \<open>
  A shallow embedding of \<^verbatim>\<open>internal/account/service.go\<close> (password hashing and
  the two kinds of signed tokens) and of \<^verbatim>\<open>pkg/utils\<close>'s \<^verbatim>\<open>Encryptor\<close>.

  A Go \<^verbatim>\<open>string\<close> and a Go \<^verbatim>\<open>[]byte\<close> are both sequences of bytes; a HOL
  \<^typ>\<open>char\<close> is one byte, so both are modelled by \<^typ>\<open>string\<close>, and the conversions
  \<^verbatim>\<open>[]byte(s)\<close> and \<^verbatim>\<open>string(b)\<close> are the identity.

  A Go function returning \<^verbatim>\<open>(T, error)\<close> is modelled as returning
  \<open>Return v e\<close>, with \<open>e = None\<close> for a \<^verbatim>\<open>nil\<close> error; a run-time panic is the
  separate outcome \<open>Panic p\<close>, with \<open>p\<close> telling which panic it is. \<open>Unspecified\<close> is
  the outcome where the Go specification leaves the result of a conversion to the
  implementation.
\<close>

subsection \<open>Errors and outcomes\<close>

datatype NumError = ErrSyntax | ErrRange

datatype claim_error = ErrTokenExpired | ErrTokenNotValidYet | ErrInvalidType

datatype jwt_error =
    ErrTokenMalformed
  | ErrTokenUnverifiable
  | ErrTokenSignatureInvalid
  | ErrTokenInvalidClaims "claim_error list"

datatype error =
    ErrPasswordEmpty
  | ErrInvalidHashFormat
  | ErrFailedToGenerateSalt
  | ErrJWTSecretNotSet
  | ErrSubjectClaimNotFound
  | ErrInvalidSubjectClaim
  | ErrJWT jwt_error
  | ErrParseUint NumError
  | ErrInvalidKeySize
  | ErrCreateCipher
  | ErrGenerateNonce
  | ErrDecodeBase64
  | ErrCiphertextTooShort
  | ErrDecryptOrAuthenticate

datatype panic = RoundsTooSmall | ParallelismTooLow | InterfaceConversion

datatype 'a outcome = Return 'a "error option" | Panic panic | Unspecified

subsection \<open>\<^verbatim>\<open>strings.Split\<close>, \<^verbatim>\<open>strings.TrimPrefix\<close>, \<^verbatim>\<open>strconv\<close>\<close>

text \<open>
  \<^verbatim>\<open>strings.Split(s, sep)\<close> for a separator of one byte, which is how the source
  calls it (\<^verbatim>\<open>"$"\<close>, \<^verbatim>\<open>","\<close> and \<^verbatim>\<open>":"\<close>). The result is never empty:
  \<^verbatim>\<open>strings.Split("", "$")\<close> is the one-element slice holding the empty string.
  \<open>splitFrom field sep s\<close> scans \<open>s\<close> with \<open>field\<close> the bytes read since the last
  separator.
\<close>

fun splitFrom :: "string \<Rightarrow> char \<Rightarrow> string \<Rightarrow> string list" where
  "splitFrom field sep [] = [field]"
| "splitFrom field sep (c # cs) =
     (if c = sep then field # splitFrom [] sep cs else splitFrom (field @ [c]) sep cs)"

definition Split :: "string \<Rightarrow> char \<Rightarrow> string list" where
  "Split s sep = splitFrom [] sep s"

definition HasPrefix :: "string \<Rightarrow> string \<Rightarrow> bool" where
  "HasPrefix s prefix = (length prefix \<le> length s \<and> take (length prefix) s = prefix)"

definition TrimPrefix :: "string \<Rightarrow> string \<Rightarrow> string" where
  "TrimPrefix s prefix = (if HasPrefix s prefix then drop (length prefix) s else s)"

definition isDigit :: "char \<Rightarrow> bool" where
  "isDigit c = (48 \<le> (of_char c :: nat) \<and> (of_char c :: nat) \<le> 57)"

definition digitVal :: "char \<Rightarrow> nat" where
  "digitVal c = of_char c - 48"

text \<open>
  The loop of \<^verbatim>\<open>strconv.ParseUint(s, 10, bitSize)\<close>: a byte that is not a decimal
  digit is a syntax error (base 10 is given explicitly, so neither a sign nor an
  underscore is accepted), and the first prefix whose value exceeds \<open>maxVal\<close> is a range
  error. Go checks the overflow of the 64-bit accumulator separately; on unbounded
  naturals both checks are the one comparison with \<open>maxVal\<close>, which is at most
  \<open>2 ^ 64 - 1\<close>.
\<close>

fun parseDigits :: "nat \<Rightarrow> nat \<Rightarrow> string \<Rightarrow> NumError + nat" where
  "parseDigits maxVal n [] = Inr n"
| "parseDigits maxVal n (c # cs) =
     (if \<not> isDigit c then Inl ErrSyntax
      else if n * 10 + digitVal c > maxVal then Inl ErrRange
      else parseDigits maxVal (n * 10 + digitVal c) cs)"

definition ParseUint :: "string \<Rightarrow> nat \<Rightarrow> NumError + nat" where
  "ParseUint s bitSize =
     (if s = [] then Inl ErrSyntax else parseDigits (2 ^ bitSize - 1) 0 s)"

text \<open>\<^verbatim>\<open>strconv.FormatUint(n, 10)\<close>, also what \<^verbatim>\<open>%d\<close> prints for an unsigned value.\<close>

definition digitChar :: "nat \<Rightarrow> char" where
  "digitChar d = char_of (48 + d)"

fun FormatUint :: "nat \<Rightarrow> string" where
  "FormatUint n = (if n < 10 then [digitChar n] else FormatUint (n div 10) @ [digitChar (n mod 10)])"

declare FormatUint.simps [simp del]

subsection \<open>\<^verbatim>\<open>encoding/base64\<close>\<close>

text \<open>
  The standard alphabet, and its inverse \<^verbatim>\<open>decodeMap\<close>. \<open>StdEncoding\<close> pads with
  \<^verbatim>\<open>=\<close>; \<open>RawStdEncoding\<close> does not pad. The flag \<open>pad\<close> tells them apart.
\<close>

definition encodeStd :: string where
  "encodeStd = ''ABCDEFGHIJKLMNOPQRSTUVWXYZabcdefghijklmnopqrstuvwxyz0123456789+/''"

fun indexOf :: "char \<Rightarrow> string \<Rightarrow> nat \<Rightarrow> nat option" where
  "indexOf c [] i = None"
| "indexOf c (x # xs) i = (if c = x then Some i else indexOf c xs (Suc i))"

definition decodeMap :: "char \<Rightarrow> nat option" where
  "decodeMap c = indexOf c encodeStd 0"

definition b64char :: "nat \<Rightarrow> char" where
  "b64char v = encodeStd ! v"

text \<open>Encoding: three bytes become four characters; a remainder of one or two bytes
  becomes two or three characters, followed by padding when the encoding pads.\<close>

fun encodeNat :: "bool \<Rightarrow> nat list \<Rightarrow> string" where
  "encodeNat pad (a # b # c # rest) =
     [b64char (a div 4), b64char ((a mod 4) * 16 + b div 16),
      b64char ((b mod 16) * 4 + c div 64), b64char (c mod 64)] @ encodeNat pad rest"
| "encodeNat pad [a, b] =
     [b64char (a div 4), b64char ((a mod 4) * 16 + b div 16), b64char ((b mod 16) * 4)]
       @ (if pad then ''='' else [])"
| "encodeNat pad [a] =
     [b64char (a div 4), b64char ((a mod 4) * 16)] @ (if pad then ''=='' else [])"
| "encodeNat pad [] = []"

definition EncodeToString :: "bool \<Rightarrow> string \<Rightarrow> string" where
  "EncodeToString pad src = encodeNat pad (map of_char src)"

text \<open>
  The bytes of one quantum of \<open>dlen\<close> six-bit values (\<open>2 \<le> dlen \<le> 4\<close>): the values
  are packed into 24 bits and the first \<open>dlen - 1\<close> bytes are kept. Neither encoding is
  strict, so the unused low bits of a short final quantum are not checked.
\<close>

definition pack :: "nat \<Rightarrow> nat \<Rightarrow> nat \<Rightarrow> nat \<Rightarrow> nat" where
  "pack a b c d = a * 262144 + b * 4096 + c * 64 + d"

definition bytesOf :: "nat \<Rightarrow> string" where
  "bytesOf val = [char_of (val div 65536), char_of (val div 256), char_of val]"

fun quantumBytes :: "nat list \<Rightarrow> string" where
  "quantumBytes [a, b, c, d] = bytesOf (pack a b c d)"
| "quantumBytes [a, b, c] = take 2 (bytesOf (pack a b c 0))"
| "quantumBytes [a, b] = take 1 (bytesOf (pack a b 0 0))"
| "quantumBytes dbuf = []"

definition isNewline :: "char \<Rightarrow> bool" where
  "isNewline c = (c = CHR 0x0A \<or> c = CHR 0x0D)"

text \<open>
  \<^verbatim>\<open>DecodeString\<close>, as the repetition of \<^verbatim>\<open>decodeQuantum\<close>: \<open>dbuf\<close> holds the
  six-bit values read so far for the current quantum. Carriage returns and line feeds
  are skipped. \<open>None\<close> stands for \<^verbatim>\<open>CorruptInputError\<close>, the only error there is.
\<close>

fun decodeLoop :: "bool \<Rightarrow> nat list \<Rightarrow> string \<Rightarrow> string option" where
  "decodeLoop pad dbuf [] =
     (if dbuf = [] then Some []
      else if length dbuf = 1 \<or> pad then None
      else Some (quantumBytes dbuf))"
| "decodeLoop pad dbuf (c # cs) =
     (case decodeMap c of
        Some v \<Rightarrow>
          (if length dbuf = 3
           then map_option (\<lambda>r. quantumBytes (dbuf @ [v]) @ r) (decodeLoop pad [] cs)
           else decodeLoop pad (dbuf @ [v]) cs)
      | None \<Rightarrow>
          if isNewline c then decodeLoop pad dbuf cs
          else if \<not> pad \<or> c \<noteq> CHR ''='' then None
          else if length dbuf < 2 then None
          else if length dbuf = 2 then
            (case dropWhile isNewline cs of
               [] \<Rightarrow> None
             | d # ds \<Rightarrow>
                 if d \<noteq> CHR ''='' then None
                 else if dropWhile isNewline ds = [] then Some (quantumBytes dbuf)
                 else None)
          else if dropWhile isNewline cs = [] then Some (quantumBytes dbuf)
          else None)"

definition DecodeString :: "bool \<Rightarrow> string \<Rightarrow> string option" where
  "DecodeString pad s = decodeLoop pad [] s"

subsection \<open>Argon2id, the random source and \<^verbatim>\<open>hmac.Equal\<close>\<close>

text \<open>
  The key derivation of \<^verbatim>\<open>golang.org/x/crypto/argon2\<close> is a parameter \<open>kdf\<close> of
  the model: a function of the password, the salt, the number of passes, the memory in
  KiB, the number of threads and the key length. \<^verbatim>\<open>argon2.IDKey\<close> panics when the
  number of passes is zero (\<^verbatim>\<open>argon2: number of rounds too small\<close>) or the number of
  threads is zero (\<^verbatim>\<open>argon2: parallelism degree too low\<close>), before deriving anything.
  Running out of memory for a large memory parameter is not modelled.
\<close>

type_synonym kdf = "string \<Rightarrow> string \<Rightarrow> 32 word \<Rightarrow> 32 word \<Rightarrow> 8 word \<Rightarrow> 32 word \<Rightarrow> string"

definition argon2_IDKey ::
  "kdf \<Rightarrow> string \<Rightarrow> string \<Rightarrow> 32 word \<Rightarrow> 32 word \<Rightarrow> 8 word \<Rightarrow> 32 word \<Rightarrow> panic + string" where
  "argon2_IDKey kdf password salt time memory threads keyLen =
     (if time < 1 then Inl RoundsTooSmall
      else if threads < 1 then Inl ParallelismTooLow
      else Inr (kdf password salt time memory threads keyLen))"

text \<open>
  The random source is the list \<open>entropy\<close> of the bytes it will deliver. Filling a
  buffer of \<open>n\<close> bytes (\<^verbatim>\<open>rand.Read\<close>, \<^verbatim>\<open>io.ReadFull(rand.Reader, _)\<close>) takes the
  first \<open>n\<close> of them, and fails when the source has fewer.
\<close>

definition rand_Read :: "string \<Rightarrow> nat \<Rightarrow> string option" where
  "rand_Read entropy n = (if length entropy < n then None else Some (take n entropy))"

text \<open>\<^verbatim>\<open>hmac.Equal\<close> compares in constant time; its result is equality of the slices.\<close>

definition hmac_Equal :: "string \<Rightarrow> string \<Rightarrow> bool" where
  "hmac_Equal mac1 mac2 = (mac1 = mac2)"

subsection \<open>\<^verbatim>\<open>HashPassword\<close> and \<^verbatim>\<open>ComparePassword\<close>\<close>

definition HashPassword :: "kdf \<Rightarrow> string \<Rightarrow> string \<Rightarrow> string outcome" where
  "HashPassword kdf entropy password =
     (if length password = 0 then Return [] (Some ErrPasswordEmpty)
      else
        let memory = (64 * 1024 :: 32 word);
            time = (1 :: 32 word);
            threads = (4 :: 8 word);
            keyLen = (32 :: 32 word);
            saltLen = (16 :: nat)
        in case rand_Read entropy saltLen of
             None \<Rightarrow> Return [] (Some ErrFailedToGenerateSalt)
           | Some salt \<Rightarrow>
               (case argon2_IDKey kdf password salt time memory threads keyLen of
                  Inl p \<Rightarrow> Panic p
                | Inr hash \<Rightarrow>
                    let b64Salt = EncodeToString False salt;
                        b64Hash = EncodeToString False hash
                    in Return (''$argon2id$v=19$m='' @ FormatUint (unat memory)
                                @ '',t='' @ FormatUint (unat time)
                                @ '',p='' @ FormatUint (unat threads)
                                @ ''$'' @ b64Salt @ ''$'' @ b64Hash) None))"

definition ComparePassword :: "kdf \<Rightarrow> string \<Rightarrow> string \<Rightarrow> bool outcome" where
  "ComparePassword kdf password hash =
     (let parts = Split hash CHR ''$'' in
      if length parts \<noteq> 6 then Return False (Some ErrInvalidHashFormat)
      else if parts ! 1 \<noteq> ''argon2id'' then Return False (Some ErrInvalidHashFormat)
      else
        let params = Split (parts ! 3) CHR '','' in
        if length params \<noteq> 3 then Return False (Some ErrInvalidHashFormat)
        else
          case ParseUint (TrimPrefix (params ! 0) ''m='') 32 of
            Inl err \<Rightarrow> Return False (Some ErrInvalidHashFormat)
          | Inr memory \<Rightarrow>
          case ParseUint (TrimPrefix (params ! 1) ''t='') 32 of
            Inl err \<Rightarrow> Return False (Some ErrInvalidHashFormat)
          | Inr time \<Rightarrow>
          case ParseUint (TrimPrefix (params ! 2) ''p='') 32 of
            Inl err \<Rightarrow> Return False (Some ErrInvalidHashFormat)
          | Inr threads \<Rightarrow>
          case DecodeString False (parts ! 4) of
            None \<Rightarrow> Return False (Some ErrInvalidHashFormat)
          | Some salt \<Rightarrow>
          case DecodeString False (parts ! 5) of
            None \<Rightarrow> Return False (Some ErrInvalidHashFormat)
          | Some hashBytes \<Rightarrow>
              let keyLen = (32 :: 32 word) in
              case argon2_IDKey kdf password salt (word_of_nat time) (word_of_nat memory)
                     (word_of_nat threads) keyLen of
                Inl p \<Rightarrow> Panic p
              | Inr computedHash \<Rightarrow> Return (hmac_Equal hashBytes computedHash) None)"

text \<open>
  The string that \<^verbatim>\<open>HashPassword\<close> formats from a salt and a derived key, with the
  three parameters it always uses.
\<close>

definition encodedHash :: "string \<Rightarrow> string \<Rightarrow> string" where
  "encodedHash salt key =
     ''$argon2id$v=19$m=65536,t=1,p=4$'' @ EncodeToString False salt @ ''$'' @ EncodeToString False key"


subsection \<open>The \<^verbatim>\<open>Encryptor\<close>\<close>

text \<open>
  AES-GCM itself is a parameter \<open>newGCM\<close> of the model: for a cipher block (which is
  determined by its key) it gives the two operations of \<^verbatim>\<open>cipher.AEAD\<close>, with the
  nonce and the message as arguments and no additional data. \<open>Seal\<close> gives the
  ciphertext followed by the tag; \<open>Open\<close> gives the plaintext, or \<open>None\<close> when the
  message does not authenticate. The nonce of GCM has 12 bytes. The limit of GCM on the
  length of a message (\<open>2 ^ 36 - 32\<close> bytes, beyond which \<^verbatim>\<open>Seal\<close> panics) is not
  modelled.
\<close>

record AEAD =
  Seal :: "string \<Rightarrow> string \<Rightarrow> string"
  Open :: "string \<Rightarrow> string \<Rightarrow> string option"

definition NonceSize :: nat where
  "NonceSize = 12"

definition aes_NewCipher :: "string \<Rightarrow> string option" where
  "aes_NewCipher key =
     (if length key = 16 \<or> length key = 24 \<or> length key = 32 then Some key else None)"

definition NewEncryptor :: "string \<Rightarrow> string option outcome" where
  "NewEncryptor key =
     (if length key \<noteq> 16 \<and> length key \<noteq> 24 \<and> length key \<noteq> 32
      then Return None (Some ErrInvalidKeySize)
      else Return (Some key) None)"

definition Encrypt :: "(string \<Rightarrow> AEAD) \<Rightarrow> string \<Rightarrow> string \<Rightarrow> string \<Rightarrow> string outcome" where
  "Encrypt newGCM key entropy plaintext =
     (case aes_NewCipher key of
        None \<Rightarrow> Return [] (Some ErrCreateCipher)
      | Some block \<Rightarrow>
          let gcm = newGCM block in
          case rand_Read entropy NonceSize of
            None \<Rightarrow> Return [] (Some ErrGenerateNonce)
          | Some nonce \<Rightarrow>
              let ciphertext = nonce @ Seal gcm nonce plaintext
              in Return (EncodeToString True ciphertext) None)"

definition Decrypt :: "(string \<Rightarrow> AEAD) \<Rightarrow> string \<Rightarrow> string \<Rightarrow> string outcome" where
  "Decrypt newGCM key ciphertext =
     (case DecodeString True ciphertext of
        None \<Rightarrow> Return [] (Some ErrDecodeBase64)
      | Some ciphertextBytes \<Rightarrow>
          (case aes_NewCipher key of
             None \<Rightarrow> Return [] (Some ErrCreateCipher)
           | Some block \<Rightarrow>
               let gcm = newGCM block; nonceSize = NonceSize in
               if length ciphertextBytes < nonceSize then Return [] (Some ErrCiphertextTooShort)
               else
                 let nonce = take nonceSize ciphertextBytes;
                     ciphertextOnly = drop nonceSize ciphertextBytes
                 in case Open gcm nonce ciphertextOnly of
                      None \<Rightarrow> Return [] (Some ErrDecryptOrAuthenticate)
                    | Some plaintextBytes \<Rightarrow> Return plaintextBytes None))"

subsection \<open>Signed tokens: \<^verbatim>\<open>github.com/golang-jwt/jwt/v5\<close>\<close>

text \<open>
  The token library is not part of the repository; the model keeps what its functions
  compute and abstracts from the text of a token. A token string is modelled by what
  its three dot-separated segments decode to: the text that is signed (the first two
  segments), the \<^verbatim>\<open>alg\<close> entry of the header, the claims object and the signature;
  \<open>Malformed\<close> stands for every string that does not decode so, the empty string among
  them.

  A JSON number is modelled by an integer literal: the tokens of this service carry
  the account id and Unix seconds, and a literal with a fraction or an exponent is
  outside the model. A claims object is the list of its members in the order of the
  text.
\<close>

datatype json = JNumber int | JString string | JOther

record jwt =
  signingString :: string
  alg :: "json option"
  claims :: "(string \<times> json) list"
  signature :: string

datatype token = Malformed | Token jwt

text \<open>
  \<^verbatim>\<open>encoding/json\<close> decodes into \<^verbatim>\<open>map[string]interface{}\<close>: a number becomes a
  \<^verbatim>\<open>float64\<close>, a string a \<^verbatim>\<open>string\<close>. The \<^verbatim>\<open>float64\<close> of an integer literal is the
  integer rounded to 53 significant bits, ties to the even neighbour; \<open>Float64 f\<close> is the
  \<^verbatim>\<open>float64\<close> of integral value \<open>f\<close>. \<open>Len n\<close> is \<^verbatim>\<open>bits.Len\<close>, the number of bits
  of \<open>n\<close>.
\<close>

datatype go_value = Float64 int | GoString string | GoOther

fun Len :: "nat \<Rightarrow> nat" where
  "Len n = (if n = 0 then 0 else Suc (Len (n div 2)))"

declare Len.simps [simp del]

definition roundFloat64 :: "nat \<Rightarrow> nat" where
  "roundFloat64 n =
     (if n < 2 ^ 53 then n
      else
        let e = Len n - 53;
            q = n div 2 ^ e;
            r = n mod 2 ^ e;
            half = 2 ^ (e - 1)
        in if r < half \<or> (r = half \<and> even q) then q * 2 ^ e else (q + 1) * 2 ^ e)"

definition float64_of_int :: "int \<Rightarrow> int" where
  "float64_of_int i = (if i < 0 then - int (roundFloat64 (nat (- i))) else int (roundFloat64 (nat i)))"

text \<open>A number beyond the range of \<^verbatim>\<open>float64\<close> is an error of \<^verbatim>\<open>json.Unmarshal\<close>.\<close>

definition unmarshal :: "json \<Rightarrow> go_value option" where
  "unmarshal v =
     (case v of
        JNumber i \<Rightarrow> if 2 ^ 1024 \<le> \<bar>float64_of_int i\<bar> then None else Some (Float64 (float64_of_int i))
      | JString s \<Rightarrow> Some (GoString s)
      | JOther \<Rightarrow> Some GoOther)"

text \<open>The members are stored one after the other, so a repeated key keeps its last value.\<close>

fun unmarshalInto :: "(string \<rightharpoonup> go_value) \<Rightarrow> (string \<times> json) list \<Rightarrow> (string \<rightharpoonup> go_value) option" where
  "unmarshalInto m [] = Some m"
| "unmarshalInto m ((k, v) # rest) =
     (case unmarshal v of
        None \<Rightarrow> None
      | Some g \<Rightarrow> unmarshalInto (m(k \<mapsto> g)) rest)"

text \<open>
  \<^verbatim>\<open>MapClaims.parseNumericDate\<close>: a missing claim and a claim that is the number 0 are
  both no date at all; a claim that is not a number is an error. The date of a number is
  \<^verbatim>\<open>time.Unix(int64(f), 0)\<close>; \<open>timeRange f\<close> says that \<open>f\<close> seconds is a time that
  \<^verbatim>\<open>time.Time\<close> holds without overflow, and outside it the result is left unspecified.
\<close>

datatype numeric_date = NoDate | Date int | DateInvalid | DateUnspecified

definition timeRange :: "int \<Rightarrow> bool" where
  "timeRange f = (- (2 ^ 63) + 62135596800 \<le> f \<and> f < 2 ^ 63 - 62135596800)"

definition parseNumericDate :: "(string \<rightharpoonup> go_value) \<Rightarrow> string \<Rightarrow> numeric_date" where
  "parseNumericDate m key =
     (case m key of
        None \<Rightarrow> NoDate
      | Some (Float64 f) \<Rightarrow> if f = 0 then NoDate else if timeRange f then Date f else DateUnspecified
      | Some (GoString s) \<Rightarrow> DateInvalid
      | Some GoOther \<Rightarrow> DateInvalid)"

text \<open>
  \<^verbatim>\<open>Validator.Validate\<close> with the default options, at the time \<open>now\<close> (nanoseconds
  since the Unix epoch): the token must not have expired (\<^verbatim>\<open>now.Before(exp)\<close>) and must
  already be valid (\<^verbatim>\<open>!now.Before(nbf)\<close>); neither claim is required, and nothing else
  is checked. The errors found are collected.
\<close>

definition verifyExpiresAt :: "(string \<rightharpoonup> go_value) \<Rightarrow> int \<Rightarrow> claim_error list option" where
  "verifyExpiresAt m now =
     (case parseNumericDate m ''exp'' of
        NoDate \<Rightarrow> Some []
      | Date exp \<Rightarrow> Some (if now < exp * 1000000000 then [] else [ErrTokenExpired])
      | DateInvalid \<Rightarrow> Some [ErrInvalidType]
      | DateUnspecified \<Rightarrow> None)"

definition verifyNotBefore :: "(string \<rightharpoonup> go_value) \<Rightarrow> int \<Rightarrow> claim_error list option" where
  "verifyNotBefore m now =
     (case parseNumericDate m ''nbf'' of
        NoDate \<Rightarrow> Some []
      | Date nbf \<Rightarrow> Some (if now < nbf * 1000000000 then [ErrTokenNotValidYet] else [])
      | DateInvalid \<Rightarrow> Some [ErrInvalidType]
      | DateUnspecified \<Rightarrow> None)"

datatype parsed = Parsed "string \<rightharpoonup> go_value" | ParseError jwt_error | ParseUnspecified

definition Validate :: "(string \<rightharpoonup> go_value) \<Rightarrow> int \<Rightarrow> parsed" where
  "Validate m now =
     (case (verifyExpiresAt m now, verifyNotBefore m now) of
        (Some errs1, Some errs2) \<Rightarrow>
          if errs1 @ errs2 = [] then Parsed m else ParseError (ErrTokenInvalidClaims (errs1 @ errs2))
      | _ \<Rightarrow> ParseUnspecified)"

text \<open>
  \<^verbatim>\<open>jwt.Parse\<close> with a key function that returns the secret as \<^verbatim>\<open>[]byte\<close>: the
  segments are decoded, the signing method is looked up by the \<^verbatim>\<open>alg\<close> of the header,
  the signature is verified, and then the claims are validated. Only the three HMAC
  methods verify with a key of type \<^verbatim>\<open>[]byte\<close>; the other registered methods reject
  the key. The MAC is a parameter \<open>mac\<close> of the model: a function of the method, the key
  and the signed text.
\<close>

definition hmacMethods :: "string list" where
  "hmacMethods = [''HS256'', ''HS384'', ''HS512'']"

definition otherMethods :: "string list" where
  "otherMethods = [''RS256'', ''RS384'', ''RS512'', ''ES256'', ''ES384'', ''ES512'',
                   ''PS256'', ''PS384'', ''PS512'', ''EdDSA'', ''none'']"

type_synonym mac = "string \<Rightarrow> string \<Rightarrow> string \<Rightarrow> string"

definition jwt_Parse :: "mac \<Rightarrow> string \<Rightarrow> int \<Rightarrow> token \<Rightarrow> parsed" where
  "jwt_Parse mac key now tokenString =
     (case tokenString of
        Malformed \<Rightarrow> ParseError ErrTokenMalformed
      | Token t \<Rightarrow>
          (case unmarshalInto Map.empty (claims t) of
             None \<Rightarrow> ParseError ErrTokenMalformed
           | Some m \<Rightarrow>
               (case alg t of
                  Some (JString a) \<Rightarrow>
                    if a \<in> set hmacMethods then
                      if hmac_Equal (signature t) (mac a key (signingString t))
                      then Validate m now
                      else ParseError ErrTokenSignatureInvalid
                    else if a \<in> set otherMethods then ParseError ErrTokenSignatureInvalid
                    else ParseError ErrTokenUnverifiable
                | Some (JNumber i) \<Rightarrow> ParseError ErrTokenUnverifiable
                | Some JOther \<Rightarrow> ParseError ErrTokenUnverifiable
                | None \<Rightarrow> ParseError ErrTokenUnverifiable)))"

text \<open>
  \<^verbatim>\<open>jwt.NewWithClaims(jwt.SigningMethodHS256, claims)\<close> followed by
  \<^verbatim>\<open>SignedString(key)\<close>. The text of the first two segments is a parameter
  \<open>segments\<close> of the model, a function of the claims object; \<^verbatim>\<open>json.Marshal\<close> writes
  the members of a map in the order of their keys.
\<close>

definition SignedString :: "((string \<times> json) list \<Rightarrow> string) \<Rightarrow> mac \<Rightarrow> (string \<times> json) list \<Rightarrow> string \<Rightarrow> token" where
  "SignedString segments mac cs key =
     Token \<lparr>signingString = segments cs,
            alg = Some (JString ''HS256''),
            claims = cs,
            signature = mac ''HS256'' key (segments cs)\<rparr>"

subsection \<open>The four token functions of \<^verbatim>\<open>AccountService\<close>\<close>

text \<open>
  The secret is the value of \<^verbatim>\<open>viper.GetString("JWT_SECRET")\<close>. The clock is read
  twice when a token is issued, \<open>t1\<close> for \<^verbatim>\<open>iat\<close> and \<open>t2\<close> for \<^verbatim>\<open>exp\<close>, and once,
  \<open>now\<close>, when a token is validated, all in nanoseconds since the Unix epoch. An account
  id is a Go \<^verbatim>\<open>uint\<close>, which has 64 bits on the platforms the service is built for.
\<close>

definition Unix :: "int \<Rightarrow> int" where
  "Unix t = t div 1000000000"

definition Hour :: int where
  "Hour = 3600 * 1000000000"

definition GenerateAuthToken ::
  "((string \<times> json) list \<Rightarrow> string) \<Rightarrow> mac \<Rightarrow> string \<Rightarrow> int \<Rightarrow> int \<Rightarrow> 64 word \<Rightarrow> token outcome" where
  "GenerateAuthToken segments mac jwtSecret t1 t2 accountID =
     (if jwtSecret = [] then Return Malformed (Some ErrJWTSecretNotSet)
      else Return (SignedString segments mac
                     [(''exp'', JNumber (Unix (t2 + Hour * 24))),
                      (''iat'', JNumber (Unix t1)),
                      (''iss'', JString ''spsyncpro_api''),
                      (''sub'', JNumber (uint accountID))]
                     jwtSecret) None)"

definition ValidateAuthToken :: "mac \<Rightarrow> string \<Rightarrow> int \<Rightarrow> token \<Rightarrow> 64 word outcome" where
  "ValidateAuthToken mac jwtSecret now tokenString =
     (if jwtSecret = [] then Return 0 (Some ErrJWTSecretNotSet)
      else case jwt_Parse mac jwtSecret now tokenString of
        ParseError err \<Rightarrow> Return 0 (Some (ErrJWT err))
      | ParseUnspecified \<Rightarrow> Unspecified
      | Parsed m \<Rightarrow>
          (case m ''sub'' of
             None \<Rightarrow> Return 0 (Some ErrSubjectClaimNotFound)
           | Some subClaim \<Rightarrow>
               (case subClaim of
                  Float64 accountIDFloat \<Rightarrow>
                    if 0 \<le> accountIDFloat \<and> accountIDFloat < 2 ^ 64
                    then Return (word_of_int accountIDFloat) None
                    else Unspecified
                | GoString s \<Rightarrow> Return 0 (Some ErrInvalidSubjectClaim)
                | GoOther \<Rightarrow> Return 0 (Some ErrInvalidSubjectClaim))))"

definition GeneratePasswordResetToken ::
  "((string \<times> json) list \<Rightarrow> string) \<Rightarrow> mac \<Rightarrow> string \<Rightarrow> int \<Rightarrow> int \<Rightarrow> 64 word \<Rightarrow> token outcome" where
  "GeneratePasswordResetToken segments mac jwtSecret t1 t2 accountID =
     (if jwtSecret = [] then Return Malformed (Some ErrJWTSecretNotSet)
      else Return (SignedString segments mac
                     [(''exp'', JNumber (Unix (t2 + Hour * 24))),
                      (''iat'', JNumber (Unix t1)),
                      (''iss'', JString ''spsyncpro_api''),
                      (''sub'', JString (FormatUint (unat accountID) @ '':password-reset''))]
                     jwtSecret) None)"

text \<open>
  The subject is converted with the unchecked assertion \<^verbatim>\<open>subClaim.(string)\<close>, which
  panics when the claim holds anything but a string (\<^verbatim>\<open>interface conversion:
  interface {} is float64, not string\<close> for a number).
\<close>

definition ValidatePasswordResetToken :: "mac \<Rightarrow> string \<Rightarrow> int \<Rightarrow> token \<Rightarrow> 64 word outcome" where
  "ValidatePasswordResetToken mac jwtSecret now tokenString =
     (if jwtSecret = [] then Return 0 (Some ErrJWTSecretNotSet)
      else case jwt_Parse mac jwtSecret now tokenString of
        ParseError err \<Rightarrow> Return 0 (Some (ErrJWT err))
      | ParseUnspecified \<Rightarrow> Unspecified
      | Parsed m \<Rightarrow>
          (case m ''sub'' of
             None \<Rightarrow> Return 0 (Some ErrSubjectClaimNotFound)
           | Some subClaim \<Rightarrow>
               (case subClaim of
                  Float64 f \<Rightarrow> Panic InterfaceConversion
                | GoOther \<Rightarrow> Panic InterfaceConversion
                | GoString s \<Rightarrow>
                    let parts = Split s CHR '':'' in
                    if length parts \<noteq> 2 then Return 0 (Some ErrInvalidSubjectClaim)
                    else
                      case ParseUint (parts ! 0) 64 of
                        Inl err \<Rightarrow> Return 0 (Some (ErrParseUint err))
                      | Inr accountID \<Rightarrow>
                          if parts ! 1 \<noteq> ''password-reset'' then Return 0 (Some ErrInvalidSubjectClaim)
                          else Return (word_of_nat accountID) None)))"

section \<open>Properties\<close>

subsection \<open>Base64\<close>

lemma char_of_nat_eqI: "m mod 256 = (n::nat) mod 256 \<Longrightarrow> char_of m = char_of n"
  by (simp add: char_of_eq_iff take_bit_eq_mod)

lemma pack_linear:
  "pack q (r * 16 + s) (t * 4 + u) w = (q * 4 + r) * 65536 + (s * 16 + t) * 256 + (u * 64 + w)"
  by (simp add: pack_def algebra_simps)

lemma pack_bytes: "pack (a div 4) ((a mod 4) * 16 + b div 16) ((b mod 16) * 4 + c div 64) (c mod 64)
     = a * 65536 + b * 256 + c"
  unfolding pack_linear by simp

lemma base256:
  fixes x c :: nat
  assumes "c < 256"
  shows "(x * 256 + c) div 256 = x" and "(x * 256 + c) mod 256 = c"
  using assms by simp_all

lemma split3:
  fixes a b c :: nat
  assumes "b < 256" "c < 256"
  shows "(a * 65536 + b * 256 + c) div 65536 = a"
    and "((a * 65536 + b * 256 + c) div 256) mod 256 = b"
    and "(a * 65536 + b * 256 + c) mod 256 = c"
proof -
  have e: "a * 65536 + b * 256 + c = (a * 256 + b) * 256 + c" by simp
  have d1: "(a * 65536 + b * 256 + c) div 256 = a * 256 + b"
    by (subst e) (rule base256(1)[OF assms(2)])
  show "(a * 65536 + b * 256 + c) mod 256 = c"
    by (subst e) (rule base256(2)[OF assms(2)])
  show "((a * 65536 + b * 256 + c) div 256) mod 256 = b"
    by (subst d1) (rule base256(2)[OF assms(1)])
  have "(a * 65536 + b * 256 + c) div 65536 = ((a * 65536 + b * 256 + c) div 256) div 256"
    by (simp add: div_mult2_eq[symmetric])
  also have "\<dots> = a" by (subst d1) (rule base256(1)[OF assms(1)])
  finally show "(a * 65536 + b * 256 + c) div 65536 = a" .
qed

lemma bytesOf_pack:
  assumes "a < 256" "b < 256" "c < 256"
  shows "bytesOf (pack (a div 4) ((a mod 4) * 16 + b div 16) ((b mod 16) * 4 + c div 64) (c mod 64)) = [char_of a, char_of b, char_of c]"
proof -
  have "char_of ((a * 65536 + b * 256 + c) div 256) = char_of b"
    using assms(2) by (intro char_of_nat_eqI) (simp add: split3(2)[OF assms(2,3)])
  moreover have "char_of (a * 65536 + b * 256 + c) = char_of c"
    using assms(3) by (intro char_of_nat_eqI) (simp add: split3(3)[OF assms(2,3)])
  ultimately show ?thesis
    unfolding pack_bytes bytesOf_def split3(1)[OF assms(2,3)] by simp
qed

lemma bytesOf_pack2:
  assumes "a < 256" "b < 256"
  shows "take 2 (bytesOf (pack (a div 4) ((a mod 4) * 16 + b div 16) ((b mod 16) * 4) 0)) = [char_of a, char_of b]"
  using bytesOf_pack[OF assms, of 0] by simp

lemma bytesOf_pack1:
  assumes "a < 256"
  shows "take 1 (bytesOf (pack (a div 4) ((a mod 4) * 16) 0 0)) = [char_of a]"
  using bytesOf_pack[OF assms, of 0 0] by simp

lemma sextets_all: "list_all (\<lambda>v. decodeMap (b64char v) = Some v \<and> \<not> isNewline (b64char v) \<and> b64char v \<noteq> CHR ''$'' \<and> b64char v \<noteq> CHR ''='') [0..<64]"
  by code_simp

lemma decodeMap_b64char: "v < 64 \<Longrightarrow> decodeMap (b64char v) = Some v"
  using sextets_all by (simp add: list_all_iff)

lemma b64char_not_dollar: "v < 64 \<Longrightarrow> b64char v \<noteq> CHR ''$''"
  using sextets_all by (simp add: list_all_iff)

lemma decodeMap_pad: "decodeMap CHR ''='' = None" "\<not> isNewline CHR ''=''"
  by code_simp+

lemma decodeLoop_quad:
  assumes "v0 < 64" "v1 < 64" "v2 < 64" "v3 < 64"
  shows "decodeLoop pad [] (b64char v0 # b64char v1 # b64char v2 # b64char v3 # rest)
       = map_option (\<lambda>r. quantumBytes [v0, v1, v2, v3] @ r) (decodeLoop pad [] rest)"
  using assms by (simp add: decodeMap_b64char)

lemma decodeLoop_triple:
  assumes "v0 < 64" "v1 < 64" "v2 < 64"
  shows "decodeLoop pad [] ([b64char v0, b64char v1, b64char v2] @ (if pad then ''='' else []))
       = Some (quantumBytes [v0, v1, v2])"
  using assms by (simp add: decodeMap_b64char decodeMap_pad)

lemma decodeLoop_pair:
  assumes "v0 < 64" "v1 < 64"
  shows "decodeLoop pad [] ([b64char v0, b64char v1] @ (if pad then ''=='' else []))
       = Some (quantumBytes [v0, v1])"
  using assms by (simp add: decodeMap_b64char decodeMap_pad)

lemma sextet_bounds:
  fixes a b c :: nat
  assumes "a < 256" "b < 256" "c < 256"
  shows "a div 4 < 64" "(a mod 4) * 16 + b div 16 < 64" "(b mod 16) * 4 + c div 64 < 64" "c mod 64 < 64"
    "(b mod 16) * 4 < 64" "(a mod 4) * 16 < 64"
  using assms by simp_all

lemma decode_encodeNat:
  "\<forall>x\<in>set ns. x < 256 \<Longrightarrow> decodeLoop pad [] (encodeNat pad ns) = Some (map char_of ns)"
proof (induction pad ns rule: encodeNat.induct)
  case (1 pad a b c rest)
  then have lt: "a < 256" "b < 256" "c < 256" and r: "\<forall>x\<in>set rest. x < 256" by simp_all
  show ?case
    by (simp only: encodeNat.simps append_Cons append_Nil 
          decodeLoop_quad[OF sextet_bounds(1-4)[OF lt]] "1.IH"[OF r] quantumBytes.simps
          bytesOf_pack[OF lt]) simp
next
  case (2 pad a b)
  then have lt: "a < 256" "b < 256" by simp_all
  show ?case
    by (simp only: encodeNat.simps decodeLoop_triple[OF sextet_bounds(1,2)[OF lt lt(2)] sextet_bounds(5)[OF lt lt(2)]]
        quantumBytes.simps bytesOf_pack2[OF lt]) simp
next
  case (3 pad a)
  then have lt: "a < 256" by simp_all
  show ?case
    by (simp only: encodeNat.simps decodeLoop_pair[OF sextet_bounds(1)[OF lt lt lt] sextet_bounds(6)[OF lt lt lt]]
        quantumBytes.simps bytesOf_pack1[OF lt]) simp
next
  case (4 pad)
  show ?case by simp
qed

lemma Decode_Encode: "DecodeString pad (EncodeToString pad s) = Some s"
  unfolding DecodeString_def EncodeToString_def
  by (subst decode_encodeNat) (simp_all add: comp_def)

lemma EncodeToString_inj: "EncodeToString pad s = EncodeToString pad t \<Longrightarrow> s = t"
  by (metis Decode_Encode option.inject)

lemma encodeNat_no_dollar:
  "\<forall>x\<in>set ns. x < 256 \<Longrightarrow> CHR ''$'' \<notin> set (encodeNat pad ns)"
proof (induction pad ns rule: encodeNat.induct)
  case (1 pad a b c rest)
  then have lt: "a < 256" "b < 256" "c < 256" and r: "\<forall>x\<in>set rest. x < 256" by simp_all
  from b64char_not_dollar[OF sextet_bounds(1)[OF lt]] b64char_not_dollar[OF sextet_bounds(2)[OF lt]]
    b64char_not_dollar[OF sextet_bounds(3)[OF lt]] b64char_not_dollar[OF sextet_bounds(4)[OF lt]]
    "1.IH"[OF r]
  show ?case by auto
next
  case (2 pad a b)
  then have lt: "a < 256" "b < 256" by simp_all
  from b64char_not_dollar[OF sextet_bounds(1)[OF lt lt(2)]] b64char_not_dollar[OF sextet_bounds(2)[OF lt lt(2)]]
    b64char_not_dollar[OF sextet_bounds(5)[OF lt lt(2)]]
  show ?case by auto
next
  case (3 pad a)
  then have lt: "a < 256" by simp_all
  from b64char_not_dollar[OF sextet_bounds(1)[OF lt lt lt]] b64char_not_dollar[OF sextet_bounds(6)[OF lt lt lt]]
  show ?case by auto
next
  case (4 pad)
  show ?case by simp
qed

lemma Encode_no_dollar: "CHR ''$'' \<notin> set (EncodeToString pad s)"
  unfolding EncodeToString_def by (rule encodeNat_no_dollar) simp

subsection \<open>Splitting, parsing and formatting\<close>







lemma narrow8: "(word_of_nat (p + 256) :: 8 word) = word_of_nat p"
  by simp

lemma splitFrom_not_Nil: "splitFrom f sep s \<noteq> []"
  by (induction s arbitrary: f) auto

lemma splitFrom_no_sep: "sep \<notin> set s \<Longrightarrow> splitFrom f sep s = [f @ s]"
  by (induction s arbitrary: f) auto

lemma splitFrom_field:
  "sep \<notin> set a \<Longrightarrow> splitFrom f sep (a @ sep # rest) = (f @ a) # splitFrom [] sep rest"
  by (induction a arbitrary: f) auto

lemma Split_not_Nil: "Split s sep \<noteq> []"
  by (simp add: Split_def splitFrom_not_Nil)

lemma Split_no_sep: "sep \<notin> set s \<Longrightarrow> Split s sep = [s]"
  by (simp add: Split_def splitFrom_no_sep)

lemma Split_field: "sep \<notin> set a \<Longrightarrow> Split (a @ sep # rest) sep = a # Split rest sep"
  by (simp add: Split_def splitFrom_field)

lemma Split_Cons_sep: "Split (sep # rest) sep = [] # Split rest sep"
  by (simp add: Split_def)

lemma digitChars:
  "digitChar 0 = CHR ''0''" "digitChar 1 = CHR ''1''" "digitChar 2 = CHR ''2''"
  "digitChar 3 = CHR ''3''" "digitChar 4 = CHR ''4''" "digitChar 5 = CHR ''5''"
  "digitChar 6 = CHR ''6''" "digitChar 7 = CHR ''7''" "digitChar 8 = CHR ''8''"
  "digitChar 9 = CHR ''9''"
  by code_simp+

lemma FormatUint_consts:
  "FormatUint 65536 = ''65536''" "FormatUint 1 = ''1''" "FormatUint 4 = ''4''"
  by (simp_all add: FormatUint.simps digitChars digitChars[simplified])

lemma params_consts:
  "ParseUint (TrimPrefix ''m=65536'' ''m='') 32 = Inr 65536"
  "ParseUint (TrimPrefix ''t=1'' ''t='') 32 = Inr 1"
  "ParseUint (TrimPrefix ''p=4'' ''p='') 32 = Inr 4"
  by (simp_all add: ParseUint_def TrimPrefix_def HasPrefix_def isDigit_def digitVal_def)

lemma Split_params: "Split ''m=65536,t=1,p=4'' CHR '','' = [''m=65536'', ''t=1'', ''p=4'']"
  by code_simp

lemma Split_encoded:
  "Split (encodedHash salt key) CHR ''$'' =
     [[], ''argon2id'', ''v=19'', ''m=65536,t=1,p=4'', EncodeToString False salt, EncodeToString False key]"
proof -
  have 1: "Split (EncodeToString False salt @ CHR ''$'' # EncodeToString False key) CHR ''$''
      = [EncodeToString False salt, EncodeToString False key]"
    by (simp add: Split_field Split_no_sep Encode_no_dollar)
  have 2: "Split (''m=65536,t=1,p=4'' @ CHR ''$'' # r) CHR ''$'' = ''m=65536,t=1,p=4'' # Split r CHR ''$''" for r
    by (rule Split_field) simp
  have 3: "Split (''v=19'' @ CHR ''$'' # r) CHR ''$'' = ''v=19'' # Split r CHR ''$''" for r
    by (rule Split_field) simp
  have 4: "Split (''argon2id'' @ CHR ''$'' # r) CHR ''$'' = ''argon2id'' # Split r CHR ''$''" for r
    by (rule Split_field) simp
  have "encodedHash salt key = CHR ''$'' # (''argon2id'' @ CHR ''$'' # (''v=19'' @ CHR ''$'' #
     (''m=65536,t=1,p=4'' @ CHR ''$'' # (EncodeToString False salt @ CHR ''$'' # EncodeToString False key))))"
    by (simp add: encodedHash_def)
  then show ?thesis
    by (simp only: Split_Cons_sep 1 2 3 4)
qed

lemma HashPassword_value:
  assumes "password \<noteq> []" "16 \<le> length entropy"
  shows "HashPassword kdf entropy password =
     Return (encodedHash (take 16 entropy) (kdf password (take 16 entropy) 1 65536 4 32)) None"
  using assms
  by (simp add: HashPassword_def rand_Read_def argon2_IDKey_def Let_def FormatUint_consts[simplified] FormatUint_consts encodedHash_def)

lemma nth6: "[a,b,c,d,e,f] ! 1 = b" "[a,b,c,d,e,f] ! 3 = d" "[a,b,c,d,e,f] ! 4 = e" "[a,b,c,d,e,f] ! 5 = f"
  by simp_all

lemma nth3: "[a,b,c] ! 0 = a" "[a,b,c] ! 1 = b" "[a,b,c] ! 2 = c"
  by simp_all

lemma len6: "length [a,b,c,d,e,f] = 6" "length [a,b,c] = 3" by simp_all

lemma IDKey_consts: "argon2_IDKey kdf password salt 1 65536 4 32
   = Inr (kdf password salt 1 65536 4 32)"
  by (simp add: argon2_IDKey_def)

lemma won: "(word_of_nat 1 :: 32 word) = 1" "(word_of_nat 65536 :: 32 word) = 65536" "(word_of_nat 4 :: 8 word) = 4"
  by simp_all

lemma ComparePassword_encoded:
  "ComparePassword kdf password (encodedHash salt key) =
     Return (key = kdf password salt 1 65536 4 32) None"
  unfolding ComparePassword_def Let_def Split_encoded nth6 len6 Split_params nth3 params_consts Decode_Encode won
  by (simp add: IDKey_consts hmac_Equal_def)





subsection \<open>The password hasher\<close>

text \<open>
  C6: for a non-empty password and a random source that delivers 16 bytes,
  \<^verbatim>\<open>HashPassword\<close> returns, with no error, the string
  \<^verbatim>\<open>$argon2id$v=19$m=65536,t=1,p=4$<salt>$<hash>\<close>, where the salt has 16 bytes, the hash
  is the key Argon2id derives with one pass, 64 MiB, 4 threads and key length 32, and
  both are written in unpadded standard base64. Splitting the string on \<^verbatim>\<open>$\<close> gives
  exactly six fields (the first one empty), and the last two decode back to the salt
  and the key.
\<close>

theorem C6_HashPassword_shape:
  assumes "password \<noteq> []" and "16 \<le> length entropy"
  shows "let salt = take 16 entropy;
             key = kdf password salt 1 65536 4 32;
             b64Salt = EncodeToString False salt;
             b64Hash = EncodeToString False key;
             encoded = ''$argon2id$v=19$m=65536,t=1,p=4$'' @ b64Salt @ ''$'' @ b64Hash
         in length salt = 16
          \<and> HashPassword kdf entropy password = Return encoded None
          \<and> Split encoded CHR ''$'' = [[], ''argon2id'', ''v=19'', ''m=65536,t=1,p=4'', b64Salt, b64Hash]
          \<and> DecodeString False b64Salt = Some salt
          \<and> DecodeString False b64Hash = Some key"
proof -
  have "length (take 16 entropy) = 16" using assms(2) by simp
  then show ?thesis
    unfolding Let_def encodedHash_def[symmetric]
    by (intro conjI HashPassword_value[OF assms] Split_encoded Decode_Encode)
qed


lemma encode_salt16: "EncodeToString False ''0123456789abcdef'' = ''MDEyMzQ1Njc4OWFiY2RlZg''"
  by code_simp

theorem C6_HashPassword_shape_witness:
  "\<forall>kdf. HashPassword kdf ''0123456789abcdef'' ''password'' =
     Return (''$argon2id$v=19$m=65536,t=1,p=4$'' @ ''MDEyMzQ1Njc4OWFiY2RlZg'' @ ''$''
              @ EncodeToString False (kdf ''password'' ''0123456789abcdef'' 1 65536 4 32)) None"
proof
  fix kdf
  have a: "''password'' \<noteq> []" and b: "16 \<le> length ''0123456789abcdef''" by simp_all
  have tk: "take 16 ''0123456789abcdef'' = ''0123456789abcdef''" by simp
  note th = C6_HashPassword_shape[OF a b, of kdf, unfolded Let_def tk encode_salt16, THEN conjunct2, THEN conjunct1]
  show "HashPassword kdf ''0123456789abcdef'' ''password'' =
     Return (''$argon2id$v=19$m=65536,t=1,p=4$'' @ ''MDEyMzQ1Njc4OWFiY2RlZg'' @ ''$''
              @ EncodeToString False (kdf ''password'' ''0123456789abcdef'' 1 65536 4 32)) None"
    by (rule th)
qed

text \<open>
  C3, as amended: for a non-empty password and a random source that delivers the 16
  bytes of the salt, \<^verbatim>\<open>HashPassword\<close> returns a hash against which the same password
  verifies; and any password \<open>p1\<close> verifies against the hash of \<open>p2\<close> exactly when
  Argon2id derives the same key from both under the hash's salt.
\<close>

theorem C3_ComparePassword_HashPassword:
  assumes "p2 \<noteq> []" and "16 \<le> length entropy"
  shows "\<exists>h. HashPassword kdf entropy p2 = Return h None
           \<and> ComparePassword kdf p2 h = Return True None
           \<and> (\<forall>p1. ComparePassword kdf p1 h =
                 Return (kdf p1 (take 16 entropy) 1 65536 4 32 = kdf p2 (take 16 entropy) 1 65536 4 32) None)"
proof (intro exI conjI allI)
  show "HashPassword kdf entropy p2 = Return (encodedHash (take 16 entropy) (kdf p2 (take 16 entropy) 1 65536 4 32)) None"
    by (rule HashPassword_value[OF assms])
  show "ComparePassword kdf p2 (encodedHash (take 16 entropy) (kdf p2 (take 16 entropy) 1 65536 4 32)) = Return True None"
    by (simp only: ComparePassword_encoded simp_thms)
  show "ComparePassword kdf p1 (encodedHash (take 16 entropy) (kdf p2 (take 16 entropy) 1 65536 4 32))
        = Return (kdf p1 (take 16 entropy) 1 65536 4 32 = kdf p2 (take 16 entropy) 1 65536 4 32) None" for p1
    by (simp only: ComparePassword_encoded eq_commute[of "kdf p2 (take 16 entropy) 1 65536 4 32"])
qed

theorem C3_ComparePassword_HashPassword_witness:
  "\<forall>kdf. \<exists>h. HashPassword kdf ''0123456789abcdef'' ''password'' = Return h None
           \<and> ComparePassword kdf ''password'' h = Return True None"
proof
  fix kdf
  have a: "''password'' \<noteq> []" and b: "16 \<le> length ''0123456789abcdef''" by simp_all
  from C3_ComparePassword_HashPassword[OF a b, of kdf]
  show "\<exists>h. HashPassword kdf ''0123456789abcdef'' ''password'' = Return h None
           \<and> ComparePassword kdf ''password'' h = Return True None"
    by blast
qed

text \<open>
  The second half of C3 as it is stated fails for every key derivation with keys of 32
  bytes, Argon2id among them: there are more passwords than keys, so two distinct
  non-empty passwords derive the same key under the same salt, and each verifies against
  the other's hash.
\<close>

lemma key_collision:
  fixes f :: "string \<Rightarrow> string"
  assumes len: "\<And>p. length (f p) = 32"
  shows "\<exists>p1 p2. p1 \<noteq> [] \<and> p2 \<noteq> [] \<and> p1 \<noteq> p2 \<and> f p1 = f p2"
proof (rule ccontr)
  assume "\<not> ?thesis"
  then have inj: "inj_on f (UNIV - {[]})"
    by (intro inj_onI) blast
  have "f ` (UNIV - {[]}) \<subseteq> {xs. set xs \<subseteq> UNIV \<and> length xs = 32}"
    using len by blast
  moreover have "finite {xs :: string. set xs \<subseteq> UNIV \<and> length xs = 32}"
    by (rule finite_lists_length_eq) (rule finite)
  ultimately have "finite (f ` (UNIV - {[]}))" by (rule finite_subset)
  then have "finite (UNIV - {[] :: string})" using inj by (rule finite_imageD)
  then have "finite (UNIV :: string set)" by simp
  then show False using infinite_UNIV_listI by blast
qed

theorem C3_distinct_passwords_counterexample:
  "\<not> (\<exists>kdf :: kdf.
        (\<forall>password salt. length (kdf password salt 1 65536 4 32) = 32)
      \<and> (\<forall>entropy p1 p2 h. p1 \<noteq> [] \<and> p2 \<noteq> [] \<and> p1 \<noteq> p2 \<and> length entropy = 16
             \<and> HashPassword kdf entropy p2 = Return h None
           \<longrightarrow> ComparePassword kdf p1 h = Return False None))"
proof (intro notI, elim exE conjE)
  fix kdf :: kdf
  assume len: "\<forall>password salt. length (kdf password salt 1 65536 4 32) = 32"
    and cl: "\<forall>entropy p1 p2 h. p1 \<noteq> [] \<and> p2 \<noteq> [] \<and> p1 \<noteq> p2 \<and> length entropy = 16
             \<and> HashPassword kdf entropy p2 = Return h None
           \<longrightarrow> ComparePassword kdf p1 h = Return False None"
  obtain salt :: string where salt: "length salt = 16"
    using Ex_list_of_length by blast
  have tk: "take 16 salt = salt" using salt by simp
  from key_collision[of "\<lambda>p. kdf p salt 1 65536 4 32"] len
  obtain p1 p2 where p: "p1 \<noteq> []" "p2 \<noteq> []" "p1 \<noteq> p2"
    and eq: "kdf p1 salt 1 65536 4 32 = kdf p2 salt 1 65536 4 32"
    by blast
  have h: "HashPassword kdf salt p2 = Return (encodedHash salt (kdf p2 salt 1 65536 4 32)) None"
    using HashPassword_value[of p2 salt kdf] p(2) salt by (simp only: tk) simp
  from cl[rule_format, of p1 p2 salt, OF conjI[OF p(1) conjI[OF p(2) conjI[OF p(3) conjI[OF salt h]]]]]
  have "ComparePassword kdf p1 (encodedHash salt (kdf p2 salt 1 65536 4 32)) = Return False None" .
  then have "(kdf p2 salt 1 65536 4 32 = kdf p1 salt 1 65536 4 32) = False"
    by (simp only: ComparePassword_encoded outcome.inject)
  with eq show False by simp
qed




text \<open>
  C10: two hashes whose fields agree everywhere but in the version field (the field at
  index 2 of the split, \<^verbatim>\<open>v=19\<close> in what \<^verbatim>\<open>HashPassword\<close> writes) get the same
  result from \<^verbatim>\<open>ComparePassword\<close>, for every password.
\<close>

theorem C10_ComparePassword_ignores_version:
  assumes "length (Split h CHR ''$'') = length (Split h' CHR ''$'')"
    and "\<forall>i < length (Split h CHR ''$''). i \<noteq> 2 \<longrightarrow> Split h CHR ''$'' ! i = Split h' CHR ''$'' ! i"
  shows "ComparePassword kdf password h = ComparePassword kdf password h'"
proof (cases "length (Split h CHR ''$'') = 6")
  case True
  with assms(2) have eq: "Split h CHR ''$'' ! 1 = Split h' CHR ''$'' ! 1"
    "Split h CHR ''$'' ! 3 = Split h' CHR ''$'' ! 3"
    "Split h CHR ''$'' ! 4 = Split h' CHR ''$'' ! 4"
    "Split h CHR ''$'' ! 5 = Split h' CHR ''$'' ! 5"
    by simp_all
  show ?thesis
    unfolding ComparePassword_def Let_def by (simp only: eq assms(1))
next
  case False
  with assms(1) show ?thesis
    unfolding ComparePassword_def Let_def by simp
qed

lemma Split_v19: "Split ''$argon2id$v=19$m=65536,t=1,p=4$c2FsdA$a2V5'' CHR ''$''
    = [[], ''argon2id'', ''v=19'', ''m=65536,t=1,p=4'', ''c2FsdA'', ''a2V5'']"
  by (simp add: Split_def)

lemma Split_v18: "Split ''$argon2id$v=18$m=65536,t=1,p=4$c2FsdA$a2V5'' CHR ''$''
    = [[], ''argon2id'', ''v=18'', ''m=65536,t=1,p=4'', ''c2FsdA'', ''a2V5'']"
  by (simp add: Split_def)

theorem C10_ComparePassword_ignores_version_witness:
  "\<forall>kdf password.
     ComparePassword kdf password ''$argon2id$v=19$m=65536,t=1,p=4$c2FsdA$a2V5''
   = ComparePassword kdf password ''$argon2id$v=18$m=65536,t=1,p=4$c2FsdA$a2V5''"
proof (intro allI)
  fix kdf password
  have l: "length (Split ''$argon2id$v=19$m=65536,t=1,p=4$c2FsdA$a2V5'' CHR ''$'')
         = length (Split ''$argon2id$v=18$m=65536,t=1,p=4$c2FsdA$a2V5'' CHR ''$'')"
    unfolding Split_v19 Split_v18 by simp
  have a: "\<forall>i < length (Split ''$argon2id$v=19$m=65536,t=1,p=4$c2FsdA$a2V5'' CHR ''$''). i \<noteq> 2 \<longrightarrow>
        Split ''$argon2id$v=19$m=65536,t=1,p=4$c2FsdA$a2V5'' CHR ''$'' ! i
      = Split ''$argon2id$v=18$m=65536,t=1,p=4$c2FsdA$a2V5'' CHR ''$'' ! i"
    unfolding Split_v19 Split_v18 by (simp add: nth_Cons')
  show "ComparePassword kdf password ''$argon2id$v=19$m=65536,t=1,p=4$c2FsdA$a2V5''
   = ComparePassword kdf password ''$argon2id$v=18$m=65536,t=1,p=4$c2FsdA$a2V5''"
    by (rule C10_ComparePassword_ignores_version[OF l a])
qed

















subsection \<open>The encryptor\<close>

lemma Encrypt_value:
  assumes "length key = 16 \<or> length key = 24 \<or> length key = 32" and "12 \<le> length entropy"
  shows "Encrypt newGCM key entropy x =
     Return (EncodeToString True (take 12 entropy @ Seal (newGCM key) (take 12 entropy) x)) None"
  using assms by (auto simp add: Encrypt_def aes_NewCipher_def rand_Read_def NonceSize_def Let_def)

lemma Decrypt_value:
  assumes "length key = 16 \<or> length key = 24 \<or> length key = 32" and "length nonce = 12"
  shows "Decrypt newGCM key (EncodeToString True (nonce @ ct)) =
     (case Open (newGCM key) nonce ct of
        None \<Rightarrow> Return [] (Some ErrDecryptOrAuthenticate)
      | Some pt \<Rightarrow> Return pt None)"
  using assms by (auto simp add: Decrypt_def Decode_Encode aes_NewCipher_def NonceSize_def Let_def)

text \<open>
  C4: for a key of 16, 24 or 32 bytes, a random source that delivers the 12 bytes of
  the nonce, and an AEAD whose \<open>Open\<close> gives back the plaintext \<open>x\<close> from what its
  \<open>Seal\<close> made of it under a nonce of 12 bytes (the contract of \<^verbatim>\<open>cipher.AEAD\<close>),
  \<^verbatim>\<open>Encrypt\<close> returns a sealed string with no error and \<^verbatim>\<open>Decrypt\<close> of it returns
  \<open>x\<close> with no error, whatever the nonce and whatever \<open>x\<close> (the empty string included);
  and two calls on the same plaintext with different nonces return different sealed
  strings.
\<close>

theorem C4_Decrypt_Encrypt:
  assumes "length key = 16 \<or> length key = 24 \<or> length key = 32"
    and "12 \<le> length entropy"
    and "\<forall>nonce. length nonce = 12 \<longrightarrow>
           Open (newGCM key) nonce (Seal (newGCM key) nonce x) = Some x"
  shows "(\<exists>sealed. Encrypt newGCM key entropy x = Return sealed None
                 \<and> Decrypt newGCM key sealed = Return x None)
       \<and> (\<forall>entropy'. 12 \<le> length entropy' \<and> take 12 entropy' \<noteq> take 12 entropy
            \<longrightarrow> Encrypt newGCM key entropy' x \<noteq> Encrypt newGCM key entropy x)"
proof (intro conjI allI impI)
  have n: "length (take 12 entropy) = 12" using assms(2) by simp
  have "Decrypt newGCM key (EncodeToString True (take 12 entropy @ Seal (newGCM key) (take 12 entropy) x))
        = Return x None"
  proof -
    from assms(3) n
    have "Open (newGCM key) (take 12 entropy) (Seal (newGCM key) (take 12 entropy) x) = Some x"
      by blast
    then show ?thesis by (simp only: Decrypt_value[OF assms(1) n] option.case)
  qed
  then show "\<exists>sealed. Encrypt newGCM key entropy x = Return sealed None
                 \<and> Decrypt newGCM key sealed = Return x None"
    using Encrypt_value[OF assms(1,2)] by blast
next
  fix entropy'
  assume a: "12 \<le> length entropy' \<and> take 12 entropy' \<noteq> take 12 entropy"
  show "Encrypt newGCM key entropy' x \<noteq> Encrypt newGCM key entropy x"
  proof
    assume "Encrypt newGCM key entropy' x = Encrypt newGCM key entropy x"
    then have "EncodeToString True (take 12 entropy' @ Seal (newGCM key) (take 12 entropy') x)
             = EncodeToString True (take 12 entropy @ Seal (newGCM key) (take 12 entropy) x)"
      using a assms(2) by (simp add: Encrypt_value[OF assms(1)])
    then have "take 12 entropy' @ Seal (newGCM key) (take 12 entropy') x
             = take 12 entropy @ Seal (newGCM key) (take 12 entropy) x"
      by (rule EncodeToString_inj)
    then have "take 12 entropy' = take 12 entropy"
      using a assms(2) by (simp add: append_eq_append_conv)
    with a show False by simp
  qed
qed

theorem C4_Decrypt_Encrypt_witness:
  "\<exists>sealed.
     Encrypt (\<lambda>k. \<lparr>Seal = \<lambda>n p. p @ n,
                    Open = \<lambda>n c. if length n \<le> length c \<and> drop (length c - length n) c = n
                                   then Some (take (length c - length n) c) else None\<rparr>)
       ''0123456789abcdef'' ''nonce-bytes!'' ''secret'' = Return sealed None
   \<and> Decrypt (\<lambda>k. \<lparr>Seal = \<lambda>n p. p @ n,
                    Open = \<lambda>n c. if length n \<le> length c \<and> drop (length c - length n) c = n
                                   then Some (take (length c - length n) c) else None\<rparr>)
       ''0123456789abcdef'' sealed = Return ''secret'' None"
proof -
  have k: "length ''0123456789abcdef'' = 16 \<or> length ''0123456789abcdef'' = 24 \<or> length ''0123456789abcdef'' = 32"
    by simp
  have e: "12 \<le> length ''nonce-bytes!''" by simp
  show ?thesis
    by (rule C4_Decrypt_Encrypt[OF k e, THEN conjunct1]) simp
qed



















subsection \<open>Tokens\<close>

lemma Len_2_53: "Len 9007199254740992 = 54"
  by (simp add: Len.simps)

lemma Len_2_53_1: "Len 9007199254740993 = 54"
  by (simp add: Len.simps)

lemma roundFloat64_exact: "n \<le> 2 ^ 53 \<Longrightarrow> roundFloat64 n = n"
proof (cases "n < 2 ^ 53")
  case True
  then show ?thesis by (simp add: roundFloat64_def)
next
  case False
  assume "n \<le> 2 ^ 53"
  with False have n: "n = 9007199254740992" by simp
  show ?thesis unfolding n by (simp add: roundFloat64_def Len_2_53 Let_def)
qed

lemma roundFloat64_tie: "roundFloat64 9007199254740993 = 9007199254740992"
  by (simp add: roundFloat64_def Len_2_53_1 Let_def)

lemma float64_of_int_exact: "\<bar>i\<bar> \<le> 2 ^ 53 \<Longrightarrow> float64_of_int i = i"
  by (auto simp add: float64_of_int_def roundFloat64_exact nat_le_iff)

lemma unmarshal_exact: "\<bar>i\<bar> \<le> 2 ^ 53 \<Longrightarrow> unmarshal (JNumber i) = Some (Float64 i)"
proof -
  assume a: "\<bar>i\<bar> \<le> 2 ^ 53"
  have "(2::int) ^ 53 < 2 ^ 1024" by (rule power_strict_increasing) simp_all
  with a have "\<not> 2 ^ 1024 \<le> \<bar>i\<bar>" by linarith
  then show ?thesis using a by (simp add: unmarshal_def float64_of_int_exact)
qed

lemma Unix_bounds:
  assumes "- (2 ^ 63) \<le> t" "t < 2 ^ 63"
  shows "\<bar>Unix t\<bar> \<le> 2 ^ 34" and "\<bar>Unix (t + Hour * 24)\<bar> \<le> 2 ^ 34"
proof -
  have lo: "Unix (- (2 ^ 63)) \<le> Unix t" and hi: "Unix t \<le> Unix (2 ^ 63)"
    using assms unfolding Unix_def by (intro zdiv_mono1; simp)+
  have lo': "Unix (- (2 ^ 63)) \<le> Unix (t + Hour * 24)" and hi': "Unix (t + Hour * 24) \<le> Unix (2 ^ 63 + Hour * 24)"
    using assms unfolding Unix_def Hour_def by (intro zdiv_mono1; simp)+
  have v: "Unix (- (2 ^ 63)) = - 9223372037" "Unix (2 ^ 63) = 9223372036" "Unix (2 ^ 63 + Hour * 24) = 9223458436"
    by (simp_all add: Unix_def Hour_def)
  show "\<bar>Unix t\<bar> \<le> 2 ^ 34" using lo hi unfolding v by simp
  show "\<bar>Unix (t + Hour * 24)\<bar> \<le> 2 ^ 34" using lo' hi' unfolding v by simp
qed

lemma small_exact: "\<bar>i\<bar> \<le> 2 ^ 34 \<Longrightarrow> unmarshal (JNumber i) = Some (Float64 i)"
  by (rule unmarshal_exact) simp

lemma small_timeRange: "\<bar>i\<bar> \<le> 2 ^ 34 \<Longrightarrow> timeRange i"
  unfolding timeRange_def by simp linarith

lemma Len_le: "n < 2 ^ k \<Longrightarrow> Len n \<le> k"
proof (induction k arbitrary: n)
  case 0
  then show ?case by (simp add: Len.simps)
next
  case (Suc k)
  have "n div 2 < 2 ^ k" using Suc.prems by simp
  from Suc.IH[OF this] show ?case by (subst Len.simps) simp
qed

lemma roundFloat64_le: "roundFloat64 n \<le> n + 2 ^ (Len n - 53)"
proof (cases "n < 2 ^ 53")
  case True
  then show ?thesis by (simp add: roundFloat64_def)
next
  case False
  have "n div 2 ^ (Len n - 53) * 2 ^ (Len n - 53) \<le> n" by simp
  then have "n div 2 ^ (Len n - 53) * 2 ^ (Len n - 53) \<le> n + 2 ^ (Len n - 53)"
    by (rule trans_le_add1)
  then show ?thesis using False
    by (simp add: roundFloat64_def Let_def)
qed

lemma roundFloat64_uint: "roundFloat64 (unat (w :: 64 word)) < 2 ^ 1024"
proof -
  have "unat w < 2 ^ 64" using unsigned_less[of w, where 'a=nat] by simp
  then have "Len (unat w) - 53 \<le> 11" using Len_le[of "unat w" 64] by simp
  then have "(2::nat) ^ (Len (unat w) - 53) \<le> 2 ^ 11" by (rule power_increasing) simp
  with roundFloat64_le[of "unat w"] \<open>unat w < 2 ^ 64\<close>
  have "roundFloat64 (unat w) < 2 ^ 64 + 2 ^ 11" by linarith
  also have "(2::nat) ^ 64 + 2 ^ 11 < 2 ^ 65" by simp
  also have "(2::nat) ^ 65 < 2 ^ 1024" by (rule power_strict_increasing) simp_all
  finally show ?thesis .
qed

lemma Parse_SignedString:
  "jwt_Parse mac key now (SignedString segments mac cs key) =
     (case unmarshalInto Map.empty cs of
        None \<Rightarrow> ParseError ErrTokenMalformed
      | Some m \<Rightarrow> Validate m now)"
  by (simp add: jwt_Parse_def SignedString_def hmacMethods_def hmac_Equal_def split: option.splits)

lemma unmarshalInto_issued:
  assumes "unmarshal (JNumber e) = Some (Float64 e)" "unmarshal (JNumber i) = Some (Float64 i)"
    "unmarshal subj = Some g"
  shows "unmarshalInto Map.empty
           [(''exp'', JNumber e), (''iat'', JNumber i), (''iss'', JString ''spsyncpro_api''), (''sub'', subj)]
         = Some [''exp'' \<mapsto> Float64 e, ''iat'' \<mapsto> Float64 i, ''iss'' \<mapsto> GoString ''spsyncpro_api'', ''sub'' \<mapsto> g]"
  using assms by (simp add: unmarshal_def)

lemma issued_lookups:
  "[''exp'' \<mapsto> a, ''iat'' \<mapsto> b, ''iss'' \<mapsto> c, ''sub'' \<mapsto> d] ''exp'' = Some a"
  "[''exp'' \<mapsto> a, ''iat'' \<mapsto> b, ''iss'' \<mapsto> c, ''sub'' \<mapsto> d] ''nbf'' = None"
  "[''exp'' \<mapsto> a, ''iat'' \<mapsto> b, ''iss'' \<mapsto> c, ''sub'' \<mapsto> d] ''sub'' = Some d"
  by simp_all

lemma Validate_issued:
  assumes "timeRange e" "e = 0 \<or> now < e * 1000000000"
  shows "Validate [''exp'' \<mapsto> Float64 e, ''iat'' \<mapsto> b, ''iss'' \<mapsto> c, ''sub'' \<mapsto> d] now
         = Parsed [''exp'' \<mapsto> Float64 e, ''iat'' \<mapsto> b, ''iss'' \<mapsto> c, ''sub'' \<mapsto> d]"
  using assms
  unfolding Validate_def verifyExpiresAt_def verifyNotBefore_def parseNumericDate_def issued_lookups
  by auto

lemma Parse_issued:
  assumes "- (2 ^ 63) \<le> t1" "t1 < 2 ^ 63" "- (2 ^ 63) \<le> t2" "t2 < 2 ^ 63"
    and "Unix (t2 + Hour * 24) = 0 \<or> now < Unix (t2 + Hour * 24) * 1000000000"
    and "unmarshal subj = Some g"
  shows "jwt_Parse mac key now
           (SignedString segments mac
              [(''exp'', JNumber (Unix (t2 + Hour * 24))), (''iat'', JNumber (Unix t1)),
               (''iss'', JString ''spsyncpro_api''), (''sub'', subj)] key)
         = Parsed [''exp'' \<mapsto> Float64 (Unix (t2 + Hour * 24)), ''iat'' \<mapsto> Float64 (Unix t1),
                   ''iss'' \<mapsto> GoString ''spsyncpro_api'', ''sub'' \<mapsto> g]"
proof -
  note b = Unix_bounds[OF assms(1,2)] Unix_bounds[OF assms(3,4)]
  have u: "unmarshalInto Map.empty
              [(''exp'', JNumber (Unix (t2 + Hour * 24))), (''iat'', JNumber (Unix t1)),
               (''iss'', JString ''spsyncpro_api''), (''sub'', subj)]
         = Some [''exp'' \<mapsto> Float64 (Unix (t2 + Hour * 24)), ''iat'' \<mapsto> Float64 (Unix t1),
                   ''iss'' \<mapsto> GoString ''spsyncpro_api'', ''sub'' \<mapsto> g]"
    by (rule unmarshalInto_issued[OF small_exact[OF b(4)] small_exact[OF b(1)] assms(6)])
  show ?thesis
    unfolding Parse_SignedString u option.case
    by (rule Validate_issued[OF small_timeRange[OF b(4)] assms(5)])
qed

lemma ValidateAuthToken_issued:
  assumes "jwtSecret \<noteq> []"
    and "- (2 ^ 63) \<le> t1" "t1 < 2 ^ 63" "- (2 ^ 63) \<le> t2" "t2 < 2 ^ 63"
    and "Unix (t2 + Hour * 24) = 0 \<or> now < Unix (t2 + Hour * 24) * 1000000000"
  shows "\<exists>tokenString.
           GenerateAuthToken segments mac jwtSecret t1 t2 accountID = Return tokenString None
         \<and> ValidateAuthToken mac jwtSecret now tokenString =
             (if float64_of_int (uint accountID) < 2 ^ 64
              then Return (word_of_int (float64_of_int (uint accountID))) None else Unspecified)
         \<and> ValidatePasswordResetToken mac jwtSecret now tokenString = Panic InterfaceConversion"
proof -
  have r: "float64_of_int (uint accountID) = int (roundFloat64 (unat accountID))"
    by (simp add: float64_of_int_def)
  have "roundFloat64 (unat accountID) < 2 ^ 1024" by (rule roundFloat64_uint)
  then have lt: "\<not> 2 ^ 1024 \<le> \<bar>float64_of_int (uint accountID)\<bar>"
    unfolding r by (metis abs_of_nat not_le of_nat_less_iff of_nat_numeral of_nat_power)
  have s: "unmarshal (JNumber (uint accountID)) = Some (Float64 (float64_of_int (uint accountID)))"
    using lt by (simp add: unmarshal_def)
  have nn: "0 \<le> float64_of_int (uint accountID)" unfolding r by simp
  note P = Parse_issued[OF assms(2-6) s, of mac jwtSecret segments]
  show ?thesis
    using assms(1) nn
    by (simp add: GenerateAuthToken_def ValidateAuthToken_def ValidatePasswordResetToken_def P)
qed

text \<open>
  C2, as amended: for a non-empty secret and an account id of at most \<open>2 ^ 53\<close>, a
  session token issued by \<^verbatim>\<open>GenerateAuthToken\<close> and validated with the same secret
  before its expiry gives back exactly that id, with no error. The clock readings are
  nanosecond counts that fit 64 bits, as Go's are.
\<close>

theorem C2_ValidateAuthToken_GenerateAuthToken:
  assumes "jwtSecret \<noteq> []"
    and "uint accountID \<le> 2 ^ 53"
    and "- (2 ^ 63) \<le> t1" "t1 < 2 ^ 63" "- (2 ^ 63) \<le> t2" "t2 < 2 ^ 63"
    and "now < Unix (t2 + Hour * 24) * 1000000000"
  shows "\<exists>tokenString.
           GenerateAuthToken segments mac jwtSecret t1 t2 accountID = Return tokenString None
         \<and> ValidateAuthToken mac jwtSecret now tokenString = Return accountID None"
proof -
  have e: "float64_of_int (uint accountID) = uint accountID"
    using assms(2) by (intro float64_of_int_exact) simp
  have lt: "uint accountID < 2 ^ 64" using assms(2) by simp
  from ValidateAuthToken_issued[OF assms(1) assms(3-6) disjI2[OF assms(7)], of segments mac accountID]
  show ?thesis unfolding e using lt by auto
qed

lemma clock_example:
  "- (2 ^ 63) \<le> (1700000000000000000 :: int)" "(1700000000000000000 :: int) < 2 ^ 63"
  "(1700000001000000000 :: int) < Unix (1700000000000000000 + Hour * 24) * 1000000000"
  by (simp_all add: Unix_def Hour_def)

theorem C2_ValidateAuthToken_GenerateAuthToken_witness:
  "\<forall>segments mac. \<exists>tokenString.
      GenerateAuthToken segments mac ''test_secret_key_for_jwt_validation''
        1700000000000000000 1700000000000000000 123 = Return tokenString None
    \<and> ValidateAuthToken mac ''test_secret_key_for_jwt_validation'' 1700000001000000000 tokenString
        = Return 123 None"
proof (intro allI)
  fix segments :: "(string \<times> json) list \<Rightarrow> string" and mac :: mac
  have s: "''test_secret_key_for_jwt_validation'' \<noteq> []" by simp
  have i: "uint (123 :: 64 word) \<le> 2 ^ 53" by simp
  show "\<exists>tokenString.
      GenerateAuthToken segments mac ''test_secret_key_for_jwt_validation''
        1700000000000000000 1700000000000000000 123 = Return tokenString None
    \<and> ValidateAuthToken mac ''test_secret_key_for_jwt_validation'' 1700000001000000000 tokenString
        = Return 123 None"
    by (rule C2_ValidateAuthToken_GenerateAuthToken[OF s i clock_example(1,2) clock_example(1,2) clock_example(3)])
qed

text \<open>
  C2 as stated fails for a large id: the subject travels as a JSON number and comes back
  as a \<^verbatim>\<open>float64\<close>, which rounds \<open>2 ^ 53 + 1\<close> to \<open>2 ^ 53\<close>.
\<close>

theorem C2_large_id_counterexample:
  "\<forall>segments mac. \<exists>tokenString.
      GenerateAuthToken segments mac ''test_secret_key_for_jwt_validation''
        1700000000000000000 1700000000000000000 9007199254740993 = Return tokenString None
    \<and> ValidateAuthToken mac ''test_secret_key_for_jwt_validation'' 1700000001000000000 tokenString
        = Return 9007199254740992 None
    \<and> (9007199254740992 :: 64 word) \<noteq> 9007199254740993"
proof (intro allI)
  fix segments :: "(string \<times> json) list \<Rightarrow> string" and mac :: mac
  have s: "''test_secret_key_for_jwt_validation'' \<noteq> []" by simp
  have u: "uint (9007199254740993 :: 64 word) = 9007199254740993" by simp
  have f: "float64_of_int 9007199254740993 = 9007199254740992"
    by (simp add: float64_of_int_def roundFloat64_tie)
  have ne: "(9007199254740992 :: 64 word) \<noteq> 9007199254740993" by simp
  from ValidateAuthToken_issued[OF s clock_example(1,2) clock_example(1,2) disjI2[OF clock_example(3)],
      of segments mac 9007199254740993]
  show "\<exists>tokenString.
      GenerateAuthToken segments mac ''test_secret_key_for_jwt_validation''
        1700000000000000000 1700000000000000000 9007199254740993 = Return tokenString None
    \<and> ValidateAuthToken mac ''test_secret_key_for_jwt_validation'' 1700000001000000000 tokenString
        = Return 9007199254740992 None
    \<and> (9007199254740992 :: 64 word) \<noteq> 9007199254740993"
    unfolding u f using ne by auto
qed

text \<open>
  C1 does not hold of the code: the subject of a session token is a number, and
  \<^verbatim>\<open>ValidatePasswordResetToken\<close> converts it with an unchecked assertion to
  \<^verbatim>\<open>string\<close>. On the session token of account 123, validated a second after it was
  issued, it panics instead of returning \<^verbatim>\<open>ErrInvalidSubjectClaim\<close>.
\<close>

theorem C1_reset_validator_panics_on_session_token:
  "\<forall>segments mac. \<exists>tokenString.
      GenerateAuthToken segments mac ''test_secret_key_for_jwt_validation''
        1700000000000000000 1700000000000000000 123 = Return tokenString None
    \<and> ValidatePasswordResetToken mac ''test_secret_key_for_jwt_validation'' 1700000001000000000 tokenString
        = Panic InterfaceConversion"
proof (intro allI)
  fix segments :: "(string \<times> json) list \<Rightarrow> string" and mac :: mac
  have s: "''test_secret_key_for_jwt_validation'' \<noteq> []" by simp
  from ValidateAuthToken_issued[OF s clock_example(1,2) clock_example(1,2) disjI2[OF clock_example(3)],
      of segments mac 123]
  show "\<exists>tokenString.
      GenerateAuthToken segments mac ''test_secret_key_for_jwt_validation''
        1700000000000000000 1700000000000000000 123 = Return tokenString None
    \<and> ValidatePasswordResetToken mac ''test_secret_key_for_jwt_validation'' 1700000001000000000 tokenString
        = Panic InterfaceConversion"
    by blast
qed







end
